theory Spec2Isabelle
  imports Complex_Main "HOL-Library.AList"
begin

section \<open>Python values and failures\<close>

text \<open>
  The cache stores values of Python type \<open>Any\<close>; the request pipeline stores what
  \<open>response.json()\<close> returns. \<open>PyNone\<close> is Python's \<open>None\<close>, which
  \<open>InMemoryCache.get\<close> also returns for a miss.
\<close>

datatype py_value =
    PyNone
  | PyBool bool
  | PyInt int
  | PyFloat real
  | PyStr string
  | PyList "py_value list"
  | PyDict "(string \<times> py_value) list"

text \<open>The two exception classes of httpx that \<open>_request\<close> catches, with their message.\<close>

datatype transport_error = TimeoutException string | RequestError string

text \<open>
  Every exception that leaves the cache or the pipeline. \<open>RuntimeError_exhausted n e\<close> is
  \<open>RuntimeError("Request failed after n attempts: e")\<close>, with \<open>e = None\<close> when
  \<open>last_error\<close> was never assigned.
\<close>

datatype error =
    KeyError
  | RegexError
  | ValueError
  | JSONDecodeError
  | WorldAnvilAuthError
  | WorldAnvilNotFoundError
  | WorldAnvilRateLimitError int
  | WorldAnvilAPIError int
  | RuntimeError_not_initialized
  | RuntimeError_exhausted int "transport_error option"

section \<open>cache.py: InMemoryCache\<close>

record CacheEntry =
  entry_value :: py_value
  expires_at :: real

text \<open>
  \<open>store\<close> is the \<open>OrderedDict\<close> \<open>_cache\<close>: its items in iteration order, the
  least recently used first. A dict holds each key once: \<open>valid_cache\<close>.
\<close>

record InMemoryCache =
  default_ttl :: int
  max_entries :: int
  store :: "(string \<times> CacheEntry) list"

definition valid_cache :: "InMemoryCache \<Rightarrow> bool" where
  "valid_cache c = distinct (map fst (store c))"

definition new_cache :: "int \<Rightarrow> int \<Rightarrow> InMemoryCache" where
  "new_cache ttl cap = \<lparr>default_ttl = ttl, max_entries = cap, store = []\<rparr>"

text \<open>\<open>OrderedDict.move_to_end(key)\<close> for a key that is present with entry \<open>e\<close>.\<close>

definition move_to_end :: "string \<Rightarrow> CacheEntry \<Rightarrow> (string \<times> CacheEntry) list
    \<Rightarrow> (string \<times> CacheEntry) list" where
  "move_to_end k e d = AList.delete k d @ [(k, e)]"

text \<open>
  \<open>get(key)\<close> at clock reading \<open>now\<close>: the value returned and the cache afterwards.
  \<open>time.time()\<close> is read only when the key is present.
\<close>

definition cache_get :: "InMemoryCache \<Rightarrow> string \<Rightarrow> real \<Rightarrow> py_value \<times> InMemoryCache" where
  "cache_get c key now =
     (case map_of (store c) key of
        None \<Rightarrow> (PyNone, c)
      | Some entry \<Rightarrow>
          if now \<ge> expires_at entry
          then (PyNone, c\<lparr>store := AList.delete key (store c)\<rparr>)
          else (entry_value entry, c\<lparr>store := move_to_end key entry (store c)\<rparr>))"

text \<open>A hit: the key is present and its entry has not expired at \<open>now\<close>.\<close>

definition live :: "InMemoryCache \<Rightarrow> string \<Rightarrow> real \<Rightarrow> bool" where
  "live c key now =
     (case map_of (store c) key of None \<Rightarrow> False | Some entry \<Rightarrow> now < expires_at entry)"

text \<open>
  \<open>set(key, value, ttl)\<close> at clock reading \<open>now\<close>: the outcome and the cache afterwards.
  \<open>popitem(last=False)\<close> raises \<open>KeyError\<close> on an empty dict, before anything is
  written.
\<close>

definition cache_set :: "InMemoryCache \<Rightarrow> string \<Rightarrow> py_value \<Rightarrow> int option \<Rightarrow> real
    \<Rightarrow> (error + unit) \<times> InMemoryCache" where
  "cache_set c key v ttl now =
     (let effective_ttl = (case ttl of Some t \<Rightarrow> t | None \<Rightarrow> default_ttl c);
          entry = \<lparr>entry_value = v, expires_at = now + real_of_int effective_ttl\<rparr>
      in if int (length (store c)) \<ge> max_entries c \<and> map_of (store c) key = None
         then (case store c of
                 [] \<Rightarrow> (Inl KeyError, c)
               | _ # rest \<Rightarrow>
                   (Inr (), c\<lparr>store := move_to_end key entry (AList.update key entry rest)\<rparr>))
         else (Inr (), c\<lparr>store := move_to_end key entry (AList.update key entry (store c))\<rparr>))"

definition invalidate :: "InMemoryCache \<Rightarrow> string \<Rightarrow> InMemoryCache" where
  "invalidate c key =
     (if map_of (store c) key \<noteq> None then c\<lparr>store := AList.delete key (store c)\<rparr> else c)"

text \<open>
  Python's \<open>re\<close> module is a parameter: \<open>compile p\<close> is \<open>None\<close> when
  \<open>re.compile(p)\<close> raises \<open>re.error\<close>, and otherwise the compiled pattern, given by
  the keys on which its \<open>match\<close> method (which matches from the start of the key)
  succeeds.
\<close>

type_synonym regex_engine = "string \<Rightarrow> (string \<Rightarrow> bool) option"

definition invalidate_pattern :: "regex_engine \<Rightarrow> InMemoryCache \<Rightarrow> string
    \<Rightarrow> (error + nat) \<times> InMemoryCache" where
  "invalidate_pattern compile c pattern =
     (case compile pattern of
        None \<Rightarrow> (Inl RegexError, c)
      | Some regex \<Rightarrow>
          (let keys_to_remove = filter regex (map fst (store c))
           in (Inr (length keys_to_remove),
               c\<lparr>store := fold AList.delete keys_to_remove (store c)\<rparr>)))"

definition clear :: "InMemoryCache \<Rightarrow> InMemoryCache" where
  "clear c = c\<lparr>store := []\<rparr>"

record Stats =
  current :: nat
  expired :: nat
  stats_max_entries :: int

definition stats :: "InMemoryCache \<Rightarrow> real \<Rightarrow> Stats" where
  "stats c now =
     \<lparr>current = length (store c),
      expired = length (filter (\<lambda>(k, entry). now \<ge> expires_at entry) (store c)),
      stats_max_entries = max_entries c\<rparr>"

text \<open>
  A sequence of calls on one cache object. A call that raises leaves the object in the
  state the call left it in, and the caller goes on.
\<close>

datatype cache_op =
    Get string real
  | Set string py_value "int option" real
  | Invalidate string
  | InvalidatePattern string
  | Clear
  | GetStats real

fun apply_op :: "regex_engine \<Rightarrow> InMemoryCache \<Rightarrow> cache_op \<Rightarrow> InMemoryCache" where
  "apply_op rc c (Get k now) = snd (cache_get c k now)"
| "apply_op rc c (Set k v ttl now) = snd (cache_set c k v ttl now)"
| "apply_op rc c (Invalidate k) = invalidate c k"
| "apply_op rc c (InvalidatePattern p) = snd (invalidate_pattern rc c p)"
| "apply_op rc c Clear = clear c"
| "apply_op rc c (GetStats now) = c"

fun run :: "regex_engine \<Rightarrow> InMemoryCache \<Rightarrow> cache_op list \<Rightarrow> InMemoryCache" where
  "run rc c [] = c"
| "run rc c (x # xs) = run rc (apply_op rc c x) xs"

subsection \<open>A fragment of Python's regular expressions\<close>

text \<open>
  To run \<open>invalidate_pattern\<close> on concrete patterns: the patterns made of ordinary
  characters, \<open>.\<close> (any character but a newline) and a postfix \<open>*\<close>, matched from the
  start of the string with backtracking, as \<open>re.match\<close> does. A \<open>*\<close> with nothing
  to repeat or after another \<open>*\<close> is an \<open>re.error\<close>. A pattern that uses any other
  special character is outside the fragment and is not compiled here.
\<close>

datatype rx_atom = Lit char | AnyChar

datatype rx_item = Once rx_atom | Many rx_atom

definition special :: "char \<Rightarrow> bool" where
  "special ch = (ch \<in> set ''.*+?^$|()[]{}'' \<or> ch = CHR 0x5C)"

fun frag_parse :: "string \<Rightarrow> rx_item list option" where
  "frag_parse [] = Some []"
| "frag_parse (ch # rest) =
     (if special ch \<and> ch \<noteq> CHR ''.'' then None
      else (let a = (if ch = CHR ''.'' then AnyChar else Lit ch)
            in case rest of
                 [] \<Rightarrow> Some [Once a]
               | ch' # rest' \<Rightarrow>
                   if ch' = CHR ''*'' then map_option (Cons (Many a)) (frag_parse rest')
                   else map_option (Cons (Once a)) (frag_parse rest)))"

fun atom_ok :: "rx_atom \<Rightarrow> char \<Rightarrow> bool" where
  "atom_ok (Lit x) ch = (ch = x)"
| "atom_ok AnyChar ch = (ch \<noteq> CHR 0x0A)"

fun frag_match :: "rx_item list \<Rightarrow> string \<Rightarrow> bool" where
  "frag_match [] s = True"
| "frag_match (Once a # r) [] = False"
| "frag_match (Once a # r) (ch # s) = (atom_ok a ch \<and> frag_match r s)"
| "frag_match (Many a # r) [] = frag_match r []"
| "frag_match (Many a # r) (ch # s) =
     ((atom_ok a ch \<and> frag_match (Many a # r) s) \<or> frag_match r (ch # s))"

definition frag_compile :: regex_engine where
  "frag_compile pattern = map_option frag_match (frag_parse pattern)"

subsection \<open>Auxiliary notions for the statements\<close>

definition entry_for :: "InMemoryCache \<Rightarrow> py_value \<Rightarrow> int option \<Rightarrow> real \<Rightarrow> CacheEntry" where
  "entry_for c v ttl now =
     \<lparr>entry_value = v,
      expires_at = now + real_of_int (case ttl of Some t \<Rightarrow> t | None \<Rightarrow> default_ttl c)\<rparr>"

definition cache_inv :: "InMemoryCache \<Rightarrow> bool" where
  "cache_inv c = (valid_cache c \<and> int (length (store c)) \<le> max 0 (max_entries c))"

definition set_ops :: "(string \<times> py_value \<times> int option \<times> real) list \<Rightarrow> cache_op list" where
  "set_ops xs = map (\<lambda>(k, v, ttl, now). Set k v ttl now) xs"

definition example_cache :: InMemoryCache where
  "example_cache =
     \<lparr>default_ttl = 300, max_entries = 1000,
      store = [(''world:123:articles'', \<lparr>entry_value = PyList [], expires_at = 300\<rparr>),
               (''world:123:categories'', \<lparr>entry_value = PyList [], expires_at = 301\<rparr>),
               (''user:456'', \<lparr>entry_value = PyDict [], expires_at = 302\<rparr>)]\<rparr>"




section \<open>client.py: WorldAnvilClient\<close>

text \<open>
  What \<open>_request\<close> reads of an \<open>httpx.Response\<close>: the status code, the value of
  \<open>headers.get("Retry-After")\<close>, and the result of \<open>json()\<close>, which is \<open>None\<close>
  here when the body is not JSON and the call raises.
\<close>

record Response =
  status_code :: int
  retry_after_header :: "string option"
  json :: "py_value option"

datatype outcome = Responded Response | Failed transport_error

text \<open>
  Everything outside the program is a parameter. \<open>transport n method path\<close> is what the
  \<open>n\<close>-th call of \<open>self._client.request\<close> does (the query and body of a request do
  not enter any decision of \<open>_request\<close>); \<open>latency n\<close> is the time that call takes;
  \<open>random n\<close> is the \<open>n\<close>-th value of \<open>random.random()\<close>; \<open>py_int s\<close> is
  \<open>int(s)\<close> for a string, \<open>None\<close> when it raises \<open>ValueError\<close>.
\<close>

record env =
  transport :: "nat \<Rightarrow> string \<Rightarrow> string \<Rightarrow> outcome"
  latency :: "nat \<Rightarrow> real"
  random :: "nat \<Rightarrow> real"
  re_compile :: regex_engine
  py_int :: "string \<Rightarrow> int option"

text \<open>
  The observable effects: how many network calls were made, the delays passed to
  \<open>asyncio.sleep\<close> in order, and the clock that \<open>time.time()\<close> reads.
\<close>

record world =
  calls :: nat
  slept :: "real list"
  clock :: real

text \<open>\<open>initialized\<close> says that \<open>self._client\<close> is not \<open>None\<close>.\<close>

record WorldAnvilClient =
  max_retries :: int
  default_cache_ttl :: int
  cache :: InMemoryCache
  initialized :: bool

definition new_client :: "int \<Rightarrow> int \<Rightarrow> WorldAnvilClient" where
  "new_client retries cache_ttl =
     \<lparr>max_retries = retries, default_cache_ttl = cache_ttl,
      cache = new_cache cache_ttl 1000, initialized = False\<rparr>"

definition aenter :: "WorldAnvilClient \<Rightarrow> WorldAnvilClient" where
  "aenter cl = cl\<lparr>initialized := True\<rparr>"

definition aexit :: "WorldAnvilClient \<Rightarrow> WorldAnvilClient" where
  "aexit cl = cl\<lparr>initialized := False\<rparr>"

text \<open>Python's truth value of a value, \<open>isinstance(data, dict)\<close> and \<open>dict.get\<close>.\<close>

fun truthy :: "py_value \<Rightarrow> bool" where
  "truthy PyNone = False"
| "truthy (PyBool b) = b"
| "truthy (PyInt n) = (n \<noteq> 0)"
| "truthy (PyFloat x) = (x \<noteq> 0)"
| "truthy (PyStr s) = (s \<noteq> [])"
| "truthy (PyList xs) = (xs \<noteq> [])"
| "truthy (PyDict kvs) = (kvs \<noteq> [])"

fun is_dict :: "py_value \<Rightarrow> bool" where
  "is_dict (PyDict kvs) = True"
| "is_dict v = False"

fun dict_get :: "py_value \<Rightarrow> string \<Rightarrow> py_value \<Rightarrow> py_value" where
  "dict_get (PyDict kvs) k dflt = (case map_of kvs k of Some v \<Rightarrow> v | None \<Rightarrow> dflt)"
| "dict_get v k dflt = dflt"

text \<open>\<open>path.split("/")\<close>: every separator splits, empty parts are kept.\<close>

fun split_on :: "char \<Rightarrow> string \<Rightarrow> string list" where
  "split_on sep [] = [[]]"
| "split_on sep (ch # s) =
     (if ch = sep then [] # split_on sep s
      else (case split_on sep s of [] \<Rightarrow> [[ch]] | part # parts \<Rightarrow> (ch # part) # parts))"

text \<open>
  \<open>path.split("/")[1] if "/" in path else ""\<close>. A path with a separator splits into at
  least two parts (\<open>split_on_two\<close> below), so the index is in range.
\<close>

definition resource_type :: "string \<Rightarrow> string" where
  "resource_type path =
     (if CHR ''/'' \<in> set path
      then (case split_on (CHR ''/'') path of _ # part # _ \<Rightarrow> part | _ \<Rightarrow> [])
      else [])"

definition mutating :: "string \<Rightarrow> bool" where
  "mutating method = (method \<in> set [''POST'', ''PATCH'', ''PUT'', ''DELETE''])"

text \<open>\<open>method == "GET" and cache_key\<close>: the key is given and not empty.\<close>

definition caching :: "string \<Rightarrow> string option \<Rightarrow> bool" where
  "caching method cache_key =
     (method = ''GET'' \<and> (case cache_key of None \<Rightarrow> False | Some key \<Rightarrow> key \<noteq> []))"

text \<open>The block "Handle error status codes": the exception it raises, if any.\<close>

definition status_error :: "env \<Rightarrow> Response \<Rightarrow> error option" where
  "status_error e r =
     (if status_code r = 401 then Some WorldAnvilAuthError
      else if status_code r = 403 then Some WorldAnvilAuthError
      else if status_code r = 404 then Some WorldAnvilNotFoundError
      else if status_code r = 429 then
        (case retry_after_header r of
           None \<Rightarrow> Some (WorldAnvilRateLimitError 60)
         | Some s \<Rightarrow>
             (case py_int e s of
                None \<Rightarrow> Some ValueError
              | Some retry_after \<Rightarrow> Some (WorldAnvilRateLimitError retry_after)))
      else if status_code r \<ge> 500 then Some (WorldAnvilAPIError (status_code r))
      else if status_code r \<ge> 400 then Some (WorldAnvilAPIError (status_code r))
      else None)"

text \<open>
  The rest of the \<open>try\<close> body, from the response to the \<open>return\<close>: the result and the
  client afterwards. \<open>now\<close> is the clock when the response has arrived.
\<close>

definition handle_response :: "env \<Rightarrow> WorldAnvilClient \<Rightarrow> string \<Rightarrow> string \<Rightarrow> string option
    \<Rightarrow> int option \<Rightarrow> real \<Rightarrow> Response \<Rightarrow> (error + py_value) \<times> WorldAnvilClient" where
  "handle_response e cl method path cache_key cache_ttl now r =
     (case status_error e r of
        Some err \<Rightarrow> (Inl err, cl)
      | None \<Rightarrow>
     (case json r of
        None \<Rightarrow> (Inl JSONDecodeError, cl)
      | Some data \<Rightarrow>
          if is_dict data \<and> \<not> truthy (dict_get data ''success'' (PyBool True))
          then (Inl (WorldAnvilAPIError (status_code r)), cl)
          else
            (let effective_ttl = (case cache_ttl of Some t \<Rightarrow> t | None \<Rightarrow> default_cache_ttl cl);
                 (stored, c1) =
                   (if caching method cache_key
                    then cache_set (cache cl) (the cache_key) data (Some effective_ttl) now
                    else (Inr (), cache cl))
             in case stored of
                  Inl err \<Rightarrow> (Inl err, cl\<lparr>cache := c1\<rparr>)
                | Inr _ \<Rightarrow>
                    if mutating method \<and> resource_type path \<noteq> []
                    then (case invalidate_pattern (re_compile e) c1
                                 (''.*'' @ resource_type path @ ''.*'') of
                            (Inl err, c2) \<Rightarrow> (Inl err, cl\<lparr>cache := c2\<rparr>)
                          | (Inr n, c2) \<Rightarrow> (Inr data, cl\<lparr>cache := c2\<rparr>))
                    else (Inr data, cl\<lparr>cache := c1\<rparr>))))"

text \<open>
  \<open>asyncio.sleep((2**attempt) + (random.random() * 0.1))\<close>: the delay is recorded and
  the clock moves on by it.
\<close>

definition backoff :: "env \<Rightarrow> nat \<Rightarrow> world \<Rightarrow> real" where
  "backoff e attempt w = 2 ^ attempt + random e (length (slept w)) * (1 / 10)"

definition sleep :: "env \<Rightarrow> nat \<Rightarrow> world \<Rightarrow> world" where
  "sleep e attempt w =
     w\<lparr>slept := slept w @ [backoff e attempt w], clock := clock w + backoff e attempt w\<rparr>"

text \<open>
  The loop \<open>for attempt in range(self.max_retries)\<close> over the attempt indices still to
  run, with \<open>last_error\<close>; after the loop, the terminal \<open>RuntimeError\<close>.
\<close>

fun attempts :: "env \<Rightarrow> string \<Rightarrow> string \<Rightarrow> string option \<Rightarrow> int option \<Rightarrow> nat list
    \<Rightarrow> transport_error option \<Rightarrow> WorldAnvilClient \<Rightarrow> world
    \<Rightarrow> (error + py_value) \<times> WorldAnvilClient \<times> world" where
  "attempts e method path cache_key cache_ttl [] last_error cl w =
     (Inl (RuntimeError_exhausted (max_retries cl) last_error), cl, w)"
| "attempts e method path cache_key cache_ttl (attempt # rest) last_error cl w =
     (let w1 = w\<lparr>calls := Suc (calls w), clock := clock w + latency e (calls w)\<rparr>
      in case transport e (calls w) method path of
           Responded r \<Rightarrow>
             (case handle_response e cl method path cache_key cache_ttl (clock w1) r of
                (result, cl1) \<Rightarrow> (result, cl1, w1))
         | Failed err \<Rightarrow>
             attempts e method path cache_key cache_ttl rest (Some err) cl
               (if int attempt < max_retries cl - 1 then sleep e attempt w1 else w1))"

text \<open>
  The cache check that opens \<open>_request\<close>: the value to return at once, if any, and the
  client afterwards.
\<close>

definition consult :: "WorldAnvilClient \<Rightarrow> string \<Rightarrow> string option \<Rightarrow> real
    \<Rightarrow> py_value option \<times> WorldAnvilClient" where
  "consult cl method cache_key now =
     (if caching method cache_key
      then (case cache_get (cache cl) (the cache_key) now of
              (cached, c1) \<Rightarrow>
                (if cached \<noteq> PyNone then Some cached else None, cl\<lparr>cache := c1\<rparr>))
      else (None, cl))"

definition request :: "env \<Rightarrow> WorldAnvilClient \<Rightarrow> string \<Rightarrow> string \<Rightarrow> string option
    \<Rightarrow> int option \<Rightarrow> world \<Rightarrow> (error + py_value) \<times> WorldAnvilClient \<times> world" where
  "request e cl method path cache_key cache_ttl w =
     (case consult cl method cache_key (clock w) of
        (Some cached, cl1) \<Rightarrow> (Inr cached, cl1, w)
      | (None, cl1) \<Rightarrow>
          if \<not> initialized cl1 then (Inl RuntimeError_not_initialized, cl1, w)
          else attempts e method path cache_key cache_ttl [0..<nat (max_retries cl1)] None cl1 w)"

subsection \<open>Auxiliary notions for the pipeline statements\<close>


subsection \<open>Concrete surroundings for running the pipeline\<close>

text \<open>
  \<open>int(s)\<close> on an unsigned decimal numeral. Python also accepts a sign, surrounding
  white space and underscores; those strings are not used here.
\<close>

definition dec_int :: "string \<Rightarrow> int option" where
  "dec_int s =
     (if s \<noteq> [] \<and> (\<forall>ch \<in> set s. ch \<in> set ''0123456789'')
      then Some (foldl (\<lambda>acc ch. 10 * acc + (int (of_char ch) - 48)) 0 s)
      else None)"

text \<open>A network on which every call times out after 30 seconds.\<close>

definition timeout_env :: env where
  "timeout_env =
     \<lparr>transport = (\<lambda>n method path. Failed (TimeoutException ''timeout'')),
      latency = (\<lambda>n. 30), random = (\<lambda>n. 1 / 2),
      re_compile = frag_compile, py_int = dec_int\<rparr>"

text \<open>A server that answers the \<open>n\<close>-th call with a fixed response.\<close>

definition answers :: "(nat \<Rightarrow> Response) \<Rightarrow> env" where
  "answers f =
     \<lparr>transport = (\<lambda>n method path. Responded (f n)),
      latency = (\<lambda>n. 1), random = (\<lambda>n. 0),
      re_compile = frag_compile, py_int = dec_int\<rparr>"

definition start :: world where
  "start = \<lparr>calls = 0, slept = [], clock = 0\<rparr>"

text \<open>
  The responses used below, by call number: the error statuses, a rate limit without and
  with the header, and a 200 whose body says \<open>{"success": false, "error": "not allowed"}\<close>.
\<close>

definition failing_responses :: "nat \<Rightarrow> Response" where
  "failing_responses n =
     (if n = 0 then \<lparr>status_code = 401, retry_after_header = None, json = None\<rparr>
      else if n = 1 then \<lparr>status_code = 403, retry_after_header = None, json = None\<rparr>
      else if n = 2 then \<lparr>status_code = 404, retry_after_header = None, json = None\<rparr>
      else if n = 3 then \<lparr>status_code = 429, retry_after_header = None, json = None\<rparr>
      else if n = 4 then \<lparr>status_code = 429, retry_after_header = Some ''30'', json = None\<rparr>
      else if n = 5 then \<lparr>status_code = 500, retry_after_header = None, json = None\<rparr>
      else if n = 6 then \<lparr>status_code = 418, retry_after_header = None, json = None\<rparr>
      else \<lparr>status_code = 200, retry_after_header = None,
             json = Some (PyDict [(''success'', PyBool False),
                                  (''error'', PyStr ''not allowed'')])\<rparr>)"

text \<open>
  A server that answers 200 with the JSON body \<open>null\<close>, and a first read from it:
  the client is entered and reads \<open>/identity\<close> with cache key \<open>identity\<close>,
  to be kept for an hour.
\<close>

definition null_response :: "nat \<Rightarrow> Response" where
  "null_response n = \<lparr>status_code = 200, retry_after_header = None, json = Some PyNone\<rparr>"

definition null_read :: "(error + py_value) \<times> WorldAnvilClient \<times> world" where
  "null_read =
     request (answers null_response) (aenter (new_client 3 300)) ''GET'' ''/identity''
       (Some ''identity'') (Some 3600) start"



section \<open>Facts about the ordered dict\<close>

lemma map_of_move_to_end:
  "map_of (move_to_end k e d) k' = (if k' = k then Some e else map_of d k')"
  by (simp add: move_to_end_def map_add_def delete_conv' split: option.splits)

lemma move_to_end_update:
  "move_to_end k e (AList.update k e d) = move_to_end k e d"
  by (simp add: move_to_end_def delete_update_same)

lemma keys_move_to_end:
  "map fst (move_to_end k e d) = removeAll k (map fst d) @ [k]"
  by (simp add: move_to_end_def delete_keys)

lemma absent_iff: "map_of d k = None \<longleftrightarrow> k \<notin> set (map fst d)"
  by (simp add: map_of_eq_None_iff)

lemma move_to_end_absent:
  "map_of d k = None \<Longrightarrow> move_to_end k e d = d @ [(k, e)]"
  by (simp add: move_to_end_def map_of_eq_None_iff)

lemma length_removeAll_present:
  "distinct ks \<Longrightarrow> k \<in> set ks \<Longrightarrow> Suc (length (removeAll k ks)) = length ks"
  by (induction ks) (auto simp: removeAll_id)

lemma length_delete_present:
  assumes "distinct (map fst d)" and "map_of d k \<noteq> None"
  shows "Suc (length (AList.delete k d)) = length d"
proof -
  have "k \<in> set (map fst d)"
    using assms(2) by (simp add: absent_iff)
  then have "Suc (length (removeAll k (map fst d))) = length (map fst d)"
    using assms(1) by (rule length_removeAll_present [rotated])
  then show ?thesis
    by (simp add: delete_keys [symmetric])
qed

lemma length_move_to_end_present:
  "distinct (map fst d) \<Longrightarrow> map_of d k \<noteq> None \<Longrightarrow> length (move_to_end k e d) = length d"
  using length_delete_present [of d k] by (simp add: move_to_end_def)

lemma distinct_move_to_end:
  "distinct (map fst d) \<Longrightarrow> distinct (map fst (move_to_end k e d))"
  by (simp add: keys_move_to_end distinct_removeAll)

lemma fold_delete:
  "fold AList.delete ks d = filter (\<lambda>(k, e). k \<notin> set ks) d"
proof (induction ks arbitrary: d)
  case Nil
  then show ?case by simp
next
  case (Cons a ks)
  have "filter (\<lambda>(k, e). k \<notin> set ks) (AList.delete a d) = filter (\<lambda>(k, e). k \<notin> set (a # ks)) d"
    by (induction d) (auto simp: AList.delete_eq)
  with Cons show ?case by simp
qed

lemma fold_delete_matching:
  "fold AList.delete (filter regex (map fst d)) d = filter (\<lambda>(k, e). \<not> regex k) d"
proof -
  have "filter (\<lambda>(k, e). k \<notin> set (filter regex (map fst d))) d = filter (\<lambda>(k, e). \<not> regex k) d"
    by (rule filter_cong) force+
  then show ?thesis by (simp add: fold_delete)
qed

subsection \<open>What \<open>set\<close> does to the store\<close>

lemma cache_set_new_full:
  assumes "map_of (store c) k = None" and "int (length (store c)) \<ge> max_entries c"
    and "store c \<noteq> []"
  shows "cache_set c k v ttl now = (Inr (), c\<lparr>store := tl (store c) @ [(k, entry_for c v ttl now)]\<rparr>)"
proof -
  obtain x rest where d: "store c = x # rest"
    using assms(3) by (cases "store c") auto
  have "map_of rest k = None"
    using assms(1) d by (auto simp: map_of_eq_None_iff split: if_splits)
  then show ?thesis
    using assms(1,2) d
    by (simp add: cache_set_def Let_def entry_for_def move_to_end_update move_to_end_absent)
qed

lemma cache_set_new_room:
  assumes "map_of (store c) k = None" and "int (length (store c)) < max_entries c"
  shows "cache_set c k v ttl now = (Inr (), c\<lparr>store := store c @ [(k, entry_for c v ttl now)]\<rparr>)"
  using assms
  by (simp add: cache_set_def Let_def entry_for_def move_to_end_update move_to_end_absent)

lemma cache_set_existing:
  assumes "map_of (store c) k \<noteq> None"
  shows "cache_set c k v ttl now =
    (Inr (), c\<lparr>store := AList.delete k (store c) @ [(k, entry_for c v ttl now)]\<rparr>)"
  using assms
  by (cases "map_of (store c) k")
    (simp_all add: cache_set_def Let_def entry_for_def move_to_end_def delete_update_same)

lemma cache_set_fails:
  "fst (cache_set c k v ttl now) \<noteq> Inr () \<Longrightarrow> cache_set c k v ttl now = (Inl KeyError, c)"
  by (auto simp: cache_set_def Let_def split: if_splits list.splits)


lemma cache_set_result:
  "fst (cache_set c k v ttl now) = Inr () \<or> fst (cache_set c k v ttl now) = Inl KeyError"
  by (auto simp: cache_set_def Let_def split: list.splits)

lemma cache_set_stores:
  assumes "cache_set c k v ttl now = (Inr (), c')"
  shows "map_of (store c') k = Some (entry_for c v ttl now)"
  using assms
  by (auto simp: cache_set_def Let_def entry_for_def map_of_move_to_end
      split: if_splits list.splits)

subsection \<open>What holds of every cache that calls can reach\<close>

lemma cache_get_inv:
  assumes "cache_inv c"
  shows "cache_inv (snd (cache_get c k now)) \<and>
    max_entries (snd (cache_get c k now)) = max_entries c"
proof (cases "map_of (store c) k")
  case None
  then show ?thesis using assms by (simp add: cache_get_def)
next
  case (Some e)
  have "length (AList.delete k (store c)) \<le> length (store c)"
    by (rule length_delete_le)
  moreover have "length (move_to_end k e (store c)) = length (store c)"
    using assms Some by (simp add: length_move_to_end_present cache_inv_def valid_cache_def)
  ultimately show ?thesis
    using assms Some
    by (auto simp: cache_get_def cache_inv_def valid_cache_def distinct_delete
        distinct_move_to_end)
qed

lemma cache_set_inv:
  assumes "cache_inv c"
  shows "cache_inv (snd (cache_set c k v ttl now)) \<and>
    max_entries (snd (cache_set c k v ttl now)) = max_entries c"
proof (cases "map_of (store c) k")
  case (Some e)
  then have ex: "map_of (store c) k \<noteq> None" by simp
  have "Suc (length (AList.delete k (store c))) = length (store c)"
    using assms ex by (simp add: length_delete_present cache_inv_def valid_cache_def)
  moreover have "k \<notin> set (removeAll k (map fst (store c)))" by simp
  ultimately show ?thesis
    using assms
    by (simp add: cache_set_existing [OF ex] cache_inv_def valid_cache_def delete_keys
        distinct_removeAll)
next
  case None
  then have nk: "k \<notin> set (map fst (store c))" by (simp add: absent_iff)
  show ?thesis
  proof (cases "int (length (store c)) < max_entries c")
    case True
    then show ?thesis
      using assms nk by (simp add: cache_set_new_room [OF None True] cache_inv_def valid_cache_def)
  next
    case False
    then have full: "int (length (store c)) \<ge> max_entries c" by simp
    show ?thesis
    proof (cases "store c")
      case Nil
      then show ?thesis using assms None full by (simp add: cache_set_def Let_def)
    next
      case (Cons x rest)
      then have ne: "store c \<noteq> []" by simp
      show ?thesis
        using assms nk Cons
        by (auto simp: cache_set_new_full [OF None full ne] cache_inv_def valid_cache_def)
    qed
  qed
qed

lemma invalidate_inv:
  assumes "cache_inv c"
  shows "cache_inv (invalidate c k) \<and> max_entries (invalidate c k) = max_entries c"
proof -
  have "length (AList.delete k (store c)) \<le> length (store c)"
    by (rule length_delete_le)
  then show ?thesis
    using assms by (auto simp: invalidate_def cache_inv_def valid_cache_def distinct_delete)
qed

lemma invalidate_pattern_inv:
  assumes "cache_inv c"
  shows "cache_inv (snd (invalidate_pattern rc c p)) \<and>
    max_entries (snd (invalidate_pattern rc c p)) = max_entries c"
proof (cases "rc p")
  case None
  then show ?thesis using assms by (simp add: invalidate_pattern_def)
next
  case (Some regex)
  have "length (filter (\<lambda>(k, e). \<not> regex k) (store c)) \<le> length (store c)"
    by (rule length_filter_le)
  moreover have "distinct (map fst (filter (\<lambda>(k, e). \<not> regex k) (store c)))"
    using assms by (simp add: cache_inv_def valid_cache_def distinct_map_filter)
  ultimately show ?thesis
    using assms Some
    by (auto simp: invalidate_pattern_def Let_def fold_delete_matching cache_inv_def
        valid_cache_def simp del: length_filter_le)
qed

lemma apply_op_inv:
  assumes "cache_inv c"
  shows "cache_inv (apply_op rc c x) \<and> max_entries (apply_op rc c x) = max_entries c"
proof (cases x)
  case (Get k now)
  then show ?thesis using cache_get_inv [OF assms] by simp
next
  case (Set k v ttl now)
  then show ?thesis using cache_set_inv [OF assms] by simp
next
  case (Invalidate k)
  then show ?thesis using invalidate_inv [OF assms] by simp
next
  case (InvalidatePattern p)
  then show ?thesis using invalidate_pattern_inv [OF assms] by simp
next
  case Clear
  then show ?thesis using assms by (simp add: clear_def cache_inv_def valid_cache_def)
next
  case (GetStats now)
  then show ?thesis using assms by simp
qed

lemma run_inv:
  "cache_inv c \<Longrightarrow> cache_inv (run rc c xs) \<and> max_entries (run rc c xs) = max_entries c"
proof (induction xs arbitrary: c)
  case Nil
  then show ?case by simp
next
  case (Cons x xs)
  from apply_op_inv [OF Cons.prems, of rc x] Cons.IH [of "apply_op rc c x"]
  show ?case by simp
qed

lemma new_cache_inv: "cache_inv (new_cache ttl cap)"
  by (simp add: cache_inv_def valid_cache_def new_cache_def)

section \<open>TTL expiry\<close>

text \<open>
  C1. After a \<open>set(k, v, t)\<close> made at time \<open>now0\<close> that returns normally, the entry is
  stored with \<open>expires_at = now0 + t\<close>. A \<open>get(k)\<close> at a time strictly before
  \<open>expires_at\<close> returns \<open>v\<close> and keeps the entry; a \<open>get(k)\<close> at or after
  \<open>expires_at\<close> returns the miss value and that same call removes the entry. Nothing
  scans for expired entries: a \<open>get\<close> of any other key, at any time, leaves the entry
  in storage.
\<close>

theorem ttl_correctness:
  assumes "cache_set c k v (Some t) now0 = (Inr (), c1)"
  shows "map_of (store c1) k = Some \<lparr>entry_value = v, expires_at = now0 + real_of_int t\<rparr> \<and>
    (now1 < now0 + real_of_int t \<longrightarrow>
       fst (cache_get c1 k now1) = v \<and>
       map_of (store (snd (cache_get c1 k now1))) k =
         Some \<lparr>entry_value = v, expires_at = now0 + real_of_int t\<rparr>) \<and>
    (now1 \<ge> now0 + real_of_int t \<longrightarrow>
       fst (cache_get c1 k now1) = PyNone \<and>
       map_of (store (snd (cache_get c1 k now1))) k = None) \<and>
    (k' \<noteq> k \<longrightarrow>
       map_of (store (snd (cache_get c1 k' now2))) k = map_of (store c1) k)"
proof -
  have stored: "map_of (store c1) k = Some \<lparr>entry_value = v, expires_at = now0 + real_of_int t\<rparr>"
    using cache_set_stores [OF assms] by (simp add: entry_for_def)
  have hit: "now1 < now0 + real_of_int t \<Longrightarrow>
       fst (cache_get c1 k now1) = v \<and>
       map_of (store (snd (cache_get c1 k now1))) k =
         Some \<lparr>entry_value = v, expires_at = now0 + real_of_int t\<rparr>"
    using stored by (simp add: cache_get_def map_of_move_to_end)
  have miss: "now1 \<ge> now0 + real_of_int t \<Longrightarrow>
       fst (cache_get c1 k now1) = PyNone \<and>
       map_of (store (snd (cache_get c1 k now1))) k = None"
    using stored by (simp add: cache_get_def delete_conv')
  have other: "k' \<noteq> k \<Longrightarrow>
       map_of (store (snd (cache_get c1 k' now2))) k = map_of (store c1) k"
    by (simp add: cache_get_def map_of_move_to_end delete_conv' split: option.splits)
  from stored hit miss other show ?thesis by blast
qed

text \<open>
  With \<open>set("a", 1, ttl=60)\<close> at time 1000: a \<open>get("a")\<close> at 1059 returns 1, one at
  1060 misses and empties the store.
\<close>

theorem ttl_correctness_witness:
  "cache_set (new_cache 300 2) ''a'' (PyInt 1) (Some 60) 1000 =
     (Inr (), \<lparr>default_ttl = 300, max_entries = 2,
               store = [(''a'', \<lparr>entry_value = PyInt 1, expires_at = 1060\<rparr>)]\<rparr>) \<and>
   fst (cache_get \<lparr>default_ttl = 300, max_entries = 2,
               store = [(''a'', \<lparr>entry_value = PyInt 1, expires_at = 1060\<rparr>)]\<rparr> ''a'' 1059)
     = PyInt 1 \<and>
   fst (cache_get \<lparr>default_ttl = 300, max_entries = 2,
               store = [(''a'', \<lparr>entry_value = PyInt 1, expires_at = 1060\<rparr>)]\<rparr> ''a'' 1060)
     = PyNone \<and>
   map_of (store (snd (cache_get \<lparr>default_ttl = 300, max_entries = 2,
               store = [(''a'', \<lparr>entry_value = PyInt 1, expires_at = 1060\<rparr>)]\<rparr> ''a'' 1060)))
     ''a'' = None"
proof -
  have h: "cache_set (new_cache 300 2) ''a'' (PyInt 1) (Some 60) 1000 =
     (Inr (), \<lparr>default_ttl = 300, max_entries = 2,
               store = [(''a'', \<lparr>entry_value = PyInt 1, expires_at = 1060\<rparr>)]\<rparr>)"
    by (simp add: cache_set_def new_cache_def move_to_end_def)
  from h ttl_correctness [OF h, of 1059] ttl_correctness [OF h, of 1060]
  show ?thesis by simp
qed

section \<open>Capacity and eviction order\<close>

lemma run_set_ops:
  assumes "valid_cache c" and "distinct (map fst xs)"
    and "set (map fst xs) \<inter> set (map fst (store c)) = {}"
    and "int (length (store c) + length xs) \<le> max_entries c"
  shows "map fst (store (run rc c (set_ops xs))) = map fst (store c) @ map fst xs \<and>
    max_entries (run rc c (set_ops xs)) = max_entries c"
  using assms
proof (induction xs arbitrary: c)
  case Nil
  then show ?case by (simp add: set_ops_def)
next
  case (Cons x xs)
  obtain k v ttl now where x: "x = (k, v, ttl, now)"
    by (cases x) auto
  have absent: "map_of (store c) k = None"
    using Cons.prems(3) x by (simp add: absent_iff)
  have room: "int (length (store c)) < max_entries c"
    using Cons.prems(4) by simp
  let ?c = "c\<lparr>store := store c @ [(k, entry_for c v ttl now)]\<rparr>"
  have step: "apply_op rc c (Set k v ttl now) = ?c"
    by (simp add: cache_set_new_room [OF absent room])
  have "map fst (store (run rc ?c (set_ops xs))) = map fst (store ?c) @ map fst xs \<and>
    max_entries (run rc ?c (set_ops xs)) = max_entries ?c"
  proof (rule Cons.IH)
    show "valid_cache ?c"
      using Cons.prems(1) absent by (simp add: valid_cache_def absent_iff)
    show "distinct (map fst xs)"
      using Cons.prems(2) by simp
    show "set (map fst xs) \<inter> set (map fst (store ?c)) = {}"
      using Cons.prems(2,3) x by auto
    show "int (length (store ?c) + length xs) \<le> max_entries ?c"
      using Cons.prems(4) by simp
  qed
  then show ?case
    using step x by (simp add: set_ops_def)
qed

lemma tl_keys: "map fst (tl d) = tl (map fst d)"
  by (cases d) auto

text \<open>
  C3, as the code has it. With capacity \<open>C \<ge> 1\<close>, after \<open>C\<close> sets of distinct keys
  into a new cache the recency order is the insertion order, and a set of one more new key
  succeeds and evicts exactly the first of them. When \<open>C \<ge> 2\<close>, a \<open>get\<close> that hits
  key \<open>a\<close> just before that set moves \<open>a\<close> to the most recent position, so \<open>a\<close>
  stays and the oldest other key is evicted. (With \<open>C = 1\<close> the key just read is also
  the least recently used one and is evicted.)
\<close>

theorem lru_order:
  assumes "1 \<le> cap" and "int (length xs) = cap" and "distinct (map fst xs)"
    and "k' \<notin> set (map fst xs)"
    and "c = run rc (new_cache ttl cap) (set_ops xs)"
  shows "map fst (store c) = map fst xs \<and>
    fst (cache_set c k' v' t' now') = Inr () \<and>
    map fst (store (snd (cache_set c k' v' t' now'))) = tl (map fst xs) @ [k'] \<and>
    (2 \<le> cap \<and> live c a now \<longrightarrow>
       fst (cache_set (snd (cache_get c a now)) k' v' t' now') = Inr () \<and>
       a \<in> set (map fst (store (snd (cache_set (snd (cache_get c a now)) k' v' t' now')))) \<and>
       map fst (store (snd (cache_set (snd (cache_get c a now)) k' v' t' now'))) =
         tl (removeAll a (map fst xs) @ [a]) @ [k'])"
proof -
  have filled: "map fst (store c) = map fst xs \<and> max_entries c = cap"
    using run_set_ops [of "new_cache ttl cap" xs rc] assms(2,3,5)
    by (simp add: new_cache_def valid_cache_def)
  have absent: "map_of (store c) k' = None"
    using assms(4) filled by (simp add: absent_iff)
  have len: "length (store c) = length xs"
    using filled by (metis length_map)
  have full: "int (length (store c)) \<ge> max_entries c"
    using len filled assms(2) by simp
  have ne: "store c \<noteq> []"
    using len assms(1,2) by auto
  have plain: "fst (cache_set c k' v' t' now') = Inr () \<and>
    map fst (store (snd (cache_set c k' v' t' now'))) = tl (map fst xs) @ [k']"
    using filled by (simp add: cache_set_new_full [OF absent full ne] tl_keys)
  have protect: "fst (cache_set (snd (cache_get c a now)) k' v' t' now') = Inr () \<and>
       a \<in> set (map fst (store (snd (cache_set (snd (cache_get c a now)) k' v' t' now')))) \<and>
       map fst (store (snd (cache_set (snd (cache_get c a now)) k' v' t' now'))) =
         tl (removeAll a (map fst xs) @ [a]) @ [k']"
    if two: "2 \<le> cap" and hit: "live c a now"
  proof -
    obtain e where e: "map_of (store c) a = Some e" and fresh: "now < expires_at e"
      using hit by (auto simp: live_def split: option.splits)
    let ?c1 = "c\<lparr>store := move_to_end a e (store c)\<rparr>"
    have got: "snd (cache_get c a now) = ?c1"
      using e fresh by (simp add: cache_get_def)
    have a_in: "a \<in> set (map fst xs)"
      using e filled by (metis absent_iff option.distinct(1))
    have keys1: "map fst (store ?c1) = removeAll a (map fst xs) @ [a]"
      using filled by (simp add: keys_move_to_end)
    have "a \<noteq> k'"
      using a_in assms(4) by auto
    then have absent1: "map_of (store ?c1) k' = None"
      using absent by (simp add: map_of_move_to_end)
    have len1: "length (store ?c1) = length (store c)"
      using e assms(3) filled by (simp add: length_move_to_end_present)
    have full1: "int (length (store ?c1)) \<ge> max_entries ?c1"
      using len1 full by simp
    have ne1: "store ?c1 \<noteq> []"
      by (simp add: move_to_end_def)
    have "Suc (length (removeAll a (map fst xs))) = length (map fst xs)"
      using assms(3) a_in by (rule length_removeAll_present)
    then have "removeAll a (map fst xs) \<noteq> []"
      using two assms(2) by auto
    then have stays: "a \<in> set (tl (removeAll a (map fst xs) @ [a]))"
      by (cases "removeAll a (map fst xs)") auto
    show ?thesis
      using stays keys1
      by (simp add: got cache_set_new_full [OF absent1 full1 ne1] tl_keys)
  qed
  from filled plain protect show ?thesis by blast
qed

text \<open>
  The spec's scenario, capacity 2: \<open>set(a,1); set(b,2); get(a); set(c,3)\<close> at times
  0, 1, 2, 3 leaves the keys \<open>a, c\<close>; then \<open>get(b)\<close> misses, \<open>get(a)\<close> is 1 and
  \<open>get(c)\<close> is 3.
\<close>

theorem lru_order_witness:
  "(1::int) \<le> 2 \<and>
   int (length [(''a'', PyInt 1, None, 0::real), (''b'', PyInt 2, None, 1)]) = 2 \<and>
   live (run frag_compile (new_cache 300 2)
          (set_ops [(''a'', PyInt 1, None, 0), (''b'', PyInt 2, None, 1)])) ''a'' 2 \<and>
   map fst (store (snd (cache_set (snd (cache_get
       (run frag_compile (new_cache 300 2)
          (set_ops [(''a'', PyInt 1, None, 0), (''b'', PyInt 2, None, 1)])) ''a'' 2))
       ''c'' (PyInt 3) None 3))) = [''a'', ''c''] \<and>
   fst (cache_get (run frag_compile (new_cache 300 2)
       [Set ''a'' (PyInt 1) None 0, Set ''b'' (PyInt 2) None 1, Get ''a'' 2,
        Set ''c'' (PyInt 3) None 3]) ''b'' 4) = PyNone \<and>
   fst (cache_get (run frag_compile (new_cache 300 2)
       [Set ''a'' (PyInt 1) None 0, Set ''b'' (PyInt 2) None 1, Get ''a'' 2,
        Set ''c'' (PyInt 3) None 3, Get ''b'' 4]) ''a'' 5) = PyInt 1 \<and>
   fst (cache_get (run frag_compile (new_cache 300 2)
       [Set ''a'' (PyInt 1) None 0, Set ''b'' (PyInt 2) None 1, Get ''a'' 2,
        Set ''c'' (PyInt 3) None 3, Get ''b'' 4, Get ''a'' 5]) ''c'' 6) = PyInt 3"
proof -
  have hit: "live (run frag_compile (new_cache 300 2)
          (set_ops [(''a'', PyInt 1, None, 0), (''b'', PyInt 2, None, 1)])) ''a'' 2"
    by (simp add: live_def set_ops_def new_cache_def cache_set_def move_to_end_def)
  have gets: "fst (cache_get (run frag_compile (new_cache 300 2)
       [Set ''a'' (PyInt 1) None 0, Set ''b'' (PyInt 2) None 1, Get ''a'' 2,
        Set ''c'' (PyInt 3) None 3]) ''b'' 4) = PyNone \<and>
   fst (cache_get (run frag_compile (new_cache 300 2)
       [Set ''a'' (PyInt 1) None 0, Set ''b'' (PyInt 2) None 1, Get ''a'' 2,
        Set ''c'' (PyInt 3) None 3, Get ''b'' 4]) ''a'' 5) = PyInt 1 \<and>
   fst (cache_get (run frag_compile (new_cache 300 2)
       [Set ''a'' (PyInt 1) None 0, Set ''b'' (PyInt 2) None 1, Get ''a'' 2,
        Set ''c'' (PyInt 3) None 3, Get ''b'' 4, Get ''a'' 5]) ''c'' 6) = PyInt 3"
    by (simp add: new_cache_def cache_set_def cache_get_def move_to_end_def)
  from hit gets
    lru_order [of 2 "[(''a'', PyInt 1, None, 0), (''b'', PyInt 2, None, 1)]" "''c''" _
      frag_compile 300 "PyInt 3" None 3 "''a''" 2, OF _ _ _ _ refl]
  show ?thesis by simp
qed

text \<open>
  Capacity 1: \<open>set(a,1)\<close>, a \<open>get(a)\<close> that hits, \<open>set(b,2)\<close>. The key just read is
  evicted all the same: only \<open>b\<close> is left and \<open>get(a)\<close> misses.
\<close>

theorem lru_order_counterexample:
  "fst (cache_get (run frag_compile (new_cache 300 1) [Set ''a'' (PyInt 1) None 0]) ''a'' 1)
     = PyInt 1 \<and>
   live (run frag_compile (new_cache 300 1) [Set ''a'' (PyInt 1) None 0]) ''a'' 1 \<and>
   map fst (store (run frag_compile (new_cache 300 1)
     [Set ''a'' (PyInt 1) None 0, Get ''a'' 1, Set ''b'' (PyInt 2) None 2])) = [''b''] \<and>
   fst (cache_get (run frag_compile (new_cache 300 1)
     [Set ''a'' (PyInt 1) None 0, Get ''a'' 1, Set ''b'' (PyInt 2) None 2]) ''a'' 3) = PyNone"
  by (simp add: new_cache_def cache_set_def cache_get_def live_def move_to_end_def)

text \<open>
  C6. In every cache reached from a new one by any sequence of calls, with any capacity, a
  \<open>set\<close> that returns normally leaves at most \<open>capacity\<close> entries. If the key is new
  and the store is at or above capacity, exactly the first (least recently used) entry is
  dropped and the new one is appended. If the key is already present, the number of entries
  and the set of keys stay the same and every other key keeps its entry.
\<close>

theorem capacity_invariant:
  assumes "c = run rc (new_cache ttl cap) ops"
    and "cache_set c k v t now = (Inr (), c')"
  shows "int (length (store c')) \<le> cap \<and>
    (map_of (store c) k = None \<and> int (length (store c)) \<ge> cap \<longrightarrow>
       store c' = tl (store c) @ [(k, entry_for c v t now)]) \<and>
    (map_of (store c) k \<noteq> None \<longrightarrow>
       length (store c') = length (store c) \<and>
       set (map fst (store c')) = set (map fst (store c)) \<and>
       (\<forall>k'. k' \<noteq> k \<longrightarrow> map_of (store c') k' = map_of (store c) k'))"
proof -
  have inv: "cache_inv c" and cap: "max_entries c = cap"
    using run_inv [OF new_cache_inv, of rc ttl cap ops] assms(1)
    by (simp_all add: new_cache_def)
  have c': "c' = snd (cache_set c k v t now)"
    using assms(2) by simp
  have inv': "cache_inv c'" and cap': "max_entries c' = cap"
    using cache_set_inv [OF inv, of k v t now] c' cap by simp_all
  have ne: "store c' \<noteq> []"
    using cache_set_stores [OF assms(2)] by auto
  have bound: "int (length (store c')) \<le> cap"
    using inv' cap' ne by (cases "store c'") (auto simp: cache_inv_def)
  have evict: "store c' = tl (store c) @ [(k, entry_for c v t now)]"
    if new: "map_of (store c) k = None" and full: "int (length (store c)) \<ge> cap"
  proof (cases "store c")
    case Nil
    then show ?thesis
      using assms(2) new full cap by (simp add: cache_set_def Let_def)
  next
    case (Cons x rest)
    then have "store c \<noteq> []" by simp
    from cache_set_new_full [OF new _ this, of v t now] full cap assms(2)
    show ?thesis by auto
  qed
  have keep: "length (store c') = length (store c) \<and>
       set (map fst (store c')) = set (map fst (store c)) \<and>
       (\<forall>k'. k' \<noteq> k \<longrightarrow> map_of (store c') k' = map_of (store c) k')"
    if old: "map_of (store c) k \<noteq> None"
  proof -
    have st: "store c' = AList.delete k (store c) @ [(k, entry_for c v t now)]"
      using cache_set_existing [OF old, of v t now] assms(2) by auto
    have "Suc (length (AList.delete k (store c))) = length (store c)"
      using inv old by (simp add: length_delete_present cache_inv_def valid_cache_def)
    moreover have "k \<in> set (map fst (store c))"
      using old by (simp add: absent_iff)
    ultimately show ?thesis
      by (auto simp: st delete_keys map_add_def split: option.splits)
  qed
  from bound evict keep show ?thesis by blast
qed

text \<open>
  Capacity 2: \<open>set(a,1); set(b,2); set(a,1)\<close> leaves \<open>stats().current = 2\<close>, and the
  keys are \<open>b, a\<close>.
\<close>

theorem capacity_invariant_witness:
  "cache_set (run frag_compile (new_cache 300 2)
       [Set ''a'' (PyInt 1) None 0, Set ''b'' (PyInt 2) None 1]) ''a'' (PyInt 1) None 2 =
     (Inr (), \<lparr>default_ttl = 300, max_entries = 2,
               store = [(''b'', \<lparr>entry_value = PyInt 2, expires_at = 301\<rparr>),
                        (''a'', \<lparr>entry_value = PyInt 1, expires_at = 302\<rparr>)]\<rparr>) \<and>
   current (stats \<lparr>default_ttl = 300, max_entries = 2,
               store = [(''b'', \<lparr>entry_value = PyInt 2, expires_at = 301\<rparr>),
                        (''a'', \<lparr>entry_value = PyInt 1, expires_at = 302\<rparr>)]\<rparr> 3) = 2 \<and>
   int (length (store \<lparr>default_ttl = 300, max_entries = 2,
               store = [(''b'', \<lparr>entry_value = PyInt 2, expires_at = 301\<rparr>),
                        (''a'', \<lparr>entry_value = PyInt 1, expires_at = 302\<rparr>)]\<rparr>)) \<le> 2"
proof -
  have h: "cache_set (run frag_compile (new_cache 300 2)
       [Set ''a'' (PyInt 1) None 0, Set ''b'' (PyInt 2) None 1]) ''a'' (PyInt 1) None 2 =
     (Inr (), \<lparr>default_ttl = 300, max_entries = 2,
               store = [(''b'', \<lparr>entry_value = PyInt 2, expires_at = 301\<rparr>),
                        (''a'', \<lparr>entry_value = PyInt 1, expires_at = 302\<rparr>)]\<rparr>)"
    by (simp add: new_cache_def cache_set_def move_to_end_def)
  from h capacity_invariant [OF refl h]
  show ?thesis by (simp add: stats_def)
qed

section \<open>Pattern invalidation\<close>

text \<open>
  C7. When the pattern compiles, \<open>invalidate_pattern\<close> drops exactly the stored keys
  that the compiled pattern matches from their start, returns how many they are, and
  leaves every other item as it was, in the same order. When the pattern does not compile,
  the call raises the regex error.
\<close>

theorem invalidate_pattern_exact:
  assumes "valid_cache c"
  shows "(rc p = Some regex \<longrightarrow>
      invalidate_pattern rc c p =
        (Inr (card {k \<in> set (map fst (store c)). regex k}),
         c\<lparr>store := filter (\<lambda>(k, e). \<not> regex k) (store c)\<rparr>)) \<and>
    (rc p = None \<longrightarrow> fst (invalidate_pattern rc c p) = Inl RegexError)"
proof -
  have "card {k \<in> set (map fst (store c)). regex k} = length (filter regex (map fst (store c)))"
  proof -
    have "distinct (filter regex (map fst (store c)))"
      using assms by (simp add: valid_cache_def)
    then have "card (set (filter regex (map fst (store c)))) =
        length (filter regex (map fst (store c)))"
      by (rule distinct_card)
    moreover have "set (filter regex (map fst (store c))) =
        {k \<in> set (map fst (store c)). regex k}"
      by auto
    ultimately show ?thesis by simp
  qed
  then show ?thesis
    by (simp add: invalidate_pattern_def Let_def fold_delete_matching)
qed

text \<open>
  The spec's example: of the keys \<open>world:123:articles\<close>, \<open>world:123:categories\<close> and
  \<open>user:456\<close>, the pattern \<open>world:123:.*\<close> removes two and \<open>user:456\<close> stays. The
  pattern \<open>123\<close> removes nothing, since no key starts with it. The pattern \<open>*\<close> has
  nothing to repeat and raises.
\<close>

theorem invalidate_pattern_exact_witness:
  "valid_cache example_cache \<and>
   invalidate_pattern frag_compile example_cache ''world:123:.*'' =
     (Inr 2, example_cache\<lparr>store := [(''user:456'', \<lparr>entry_value = PyDict [], expires_at = 302\<rparr>)]\<rparr>) \<and>
   invalidate_pattern frag_compile example_cache ''123'' = (Inr 0, example_cache) \<and>
   fst (invalidate_pattern frag_compile example_cache ''*'') = Inl RegexError"
proof -
  have v: "valid_cache example_cache"
    by (simp add: valid_cache_def example_cache_def)
  have bad: "frag_compile ''*'' = None"
    by (simp add: frag_compile_def special_def)
  have two: "invalidate_pattern frag_compile example_cache ''world:123:.*'' =
     (Inr 2, example_cache\<lparr>store := [(''user:456'', \<lparr>entry_value = PyDict [], expires_at = 302\<rparr>)]\<rparr>)"
    by (simp add: invalidate_pattern_def frag_compile_def special_def example_cache_def)
  have none: "invalidate_pattern frag_compile example_cache ''123'' = (Inr 0, example_cache)"
    by (simp add: invalidate_pattern_def frag_compile_def special_def example_cache_def)
  from v two none bad invalidate_pattern_exact [OF v, of frag_compile "''*''"]
  show ?thesis by simp
qed

text \<open>
  C8. A pattern that does not compile makes \<open>invalidate_pattern\<close> raise before any key
  is looked at: the cache after the failed call is the cache before it.
\<close>

theorem invalidate_pattern_atomic:
  "rc p = None \<Longrightarrow> invalidate_pattern rc c p = (Inl RegexError, c)"
  by (simp add: invalidate_pattern_def)

theorem invalidate_pattern_atomic_witness:
  "frag_compile ''a**'' = None \<and>
   invalidate_pattern frag_compile example_cache ''a**'' = (Inl RegexError, example_cache)"
proof -
  have bad: "frag_compile ''a**'' = None"
    by (simp add: frag_compile_def special_def)
  from bad invalidate_pattern_atomic [of frag_compile "''a**''" example_cache]
  show ?thesis by simp
qed

section \<open>The request pipeline\<close>

lemma split_on_nonempty: "split_on sep s \<noteq> []"
  by (induction s) (auto split: list.splits)

lemma split_on_two:
  "sep \<in> set s \<Longrightarrow> \<exists>a b rest. split_on sep s = a # b # rest"
proof (induction s)
  case Nil
  then show ?case by simp
next
  case (Cons ch s)
  show ?case
  proof (cases "ch = sep")
    case True
    then show ?thesis
      using split_on_nonempty [of sep s] by (cases "split_on sep s") auto
  next
    case False
    with Cons obtain a b rest where "split_on sep s = a # b # rest" by auto
    with False show ?thesis by simp
  qed
qed


lemma request_network:
  assumes "fst (consult cl method cache_key (clock w)) = None"
    and "initialized cl"
  shows "request e cl method path cache_key cache_ttl w =
    attempts e method path cache_key cache_ttl
      [0..<nat (max_retries (snd (consult cl method cache_key (clock w))))] None
      (snd (consult cl method cache_key (clock w))) w"
proof -
  obtain hit cl1 where c: "consult cl method cache_key (clock w) = (hit, cl1)"
    by (cases "consult cl method cache_key (clock w)") auto
  have "initialized cl1"
    using assms(2) c by (auto simp: consult_def split: prod.splits if_splits)
  moreover have "hit = None"
    using assms(1) c by simp
  ultimately show ?thesis
    using c by (simp add: request_def)
qed

lemma consult_config:
  "max_retries (snd (consult cl method cache_key now)) = max_retries cl \<and>
   default_cache_ttl (snd (consult cl method cache_key now)) = default_cache_ttl cl \<and>
   initialized (snd (consult cl method cache_key now)) = initialized cl"
  by (auto simp: consult_def split: prod.splits)

lemma attempts_first_response:
  assumes "transport e (calls w) method path = Responded r"
  shows "attempts e method path cache_key cache_ttl (attempt # rest) lerr cl w =
    (fst (handle_response e cl method path cache_key cache_ttl
            (clock w + latency e (calls w)) r),
     snd (handle_response e cl method path cache_key cache_ttl
            (clock w + latency e (calls w)) r),
     w\<lparr>calls := Suc (calls w), clock := clock w + latency e (calls w)\<rparr>)"
  using assms by (simp add: Let_def split: prod.splits)





text \<open>
  C5. On the network path with at least one attempt allowed, when the first attempt gets a
  response, exactly one network call is made and nothing is slept, whatever the response.
  Status 401 or 403 raises the Auth failure, 404 NotFound, 429 RateLimit with the number in
  the \<open>Retry-After\<close> header when it is an integer and with 60 when the header is absent,
  any other status from 400 on the API error with that status, and a status below 400 whose
  JSON object has \<open>success\<close> false the API error too. An object without a
  \<open>success\<close> entry does not raise it.
\<close>

theorem classification_short_circuit:
  assumes "initialized cl"
    and "fst (consult cl method cache_key (clock w)) = None"
    and "1 \<le> max_retries cl"
    and "transport e (calls w) method path = Responded r"
    and "request e cl method path cache_key cache_ttl w = (result, cl', w')"
  shows "calls w' = Suc (calls w) \<and> slept w' = slept w \<and>
    (status_code r = 401 \<or> status_code r = 403 \<longrightarrow> result = Inl WorldAnvilAuthError) \<and>
    (status_code r = 404 \<longrightarrow> result = Inl WorldAnvilNotFoundError) \<and>
    (status_code r = 429 \<and> retry_after_header r = None \<longrightarrow>
       result = Inl (WorldAnvilRateLimitError 60)) \<and>
    (status_code r = 429 \<and> retry_after_header r = Some s \<and> py_int e s = Some n \<longrightarrow>
       result = Inl (WorldAnvilRateLimitError n)) \<and>
    (400 \<le> status_code r \<and> status_code r \<notin> {401, 403, 404, 429} \<longrightarrow>
       result = Inl (WorldAnvilAPIError (status_code r))) \<and>
    (status_code r < 400 \<and> json r = Some (PyDict kvs) \<and>
       map_of kvs ''success'' = Some (PyBool False) \<longrightarrow>
       result = Inl (WorldAnvilAPIError (status_code r))) \<and>
    (status_code r < 400 \<and> json r = Some (PyDict kvs) \<and> map_of kvs ''success'' = None \<longrightarrow>
       result \<noteq> Inl (WorldAnvilAPIError (status_code r)))"
proof -
  let ?cl1 = "snd (consult cl method cache_key (clock w))"
  let ?now = "clock w + latency e (calls w)"
  obtain m where m: "nat (max_retries ?cl1) = Suc m"
    using assms(3) by (cases "nat (max_retries ?cl1)") (auto simp: consult_config)
  have "[0..<nat (max_retries ?cl1)] = 0 # [1..<Suc m]"
    unfolding m by (simp add: upt_conv_Cons del: upt_Suc)
  then have run: "request e cl method path cache_key cache_ttl w =
      (fst (handle_response e ?cl1 method path cache_key cache_ttl ?now r),
       snd (handle_response e ?cl1 method path cache_key cache_ttl ?now r),
       w\<lparr>calls := Suc (calls w), clock := ?now\<rparr>)"
    using request_network [OF assms(2,1), of e path cache_ttl]
      attempts_first_response [OF assms(4)] by simp
  have res: "result = fst (handle_response e ?cl1 method path cache_key cache_ttl ?now r)"
    and w': "w' = w\<lparr>calls := Suc (calls w), clock := ?now\<rparr>"
    using run assms(5) by simp_all
  have once: "calls w' = Suc (calls w) \<and> slept w' = slept w"
    using w' by simp
  have auth: "status_code r = 401 \<or> status_code r = 403 \<Longrightarrow> result = Inl WorldAnvilAuthError"
    unfolding res by (auto simp: handle_response_def status_error_def)
  have nf: "status_code r = 404 \<Longrightarrow> result = Inl WorldAnvilNotFoundError"
    unfolding res by (simp add: handle_response_def status_error_def)
  have rl0: "status_code r = 429 \<and> retry_after_header r = None \<Longrightarrow>
      result = Inl (WorldAnvilRateLimitError 60)"
    unfolding res by (simp add: handle_response_def status_error_def)
  have rl: "status_code r = 429 \<and> retry_after_header r = Some s \<and> py_int e s = Some n \<Longrightarrow>
      result = Inl (WorldAnvilRateLimitError n)"
    unfolding res by (simp add: handle_response_def status_error_def)
  have api: "400 \<le> status_code r \<and> status_code r \<notin> {401, 403, 404, 429} \<Longrightarrow>
      result = Inl (WorldAnvilAPIError (status_code r))"
    unfolding res by (simp add: handle_response_def status_error_def)
  have below: "status_error e r = None" if "status_code r < 400"
    using that by (simp add: status_error_def)
  have flag: "status_code r < 400 \<and> json r = Some (PyDict kvs) \<and>
       map_of kvs ''success'' = Some (PyBool False) \<Longrightarrow>
       result = Inl (WorldAnvilAPIError (status_code r))"
    unfolding res by (simp add: handle_response_def below)
  have noflag: "status_code r < 400 \<and> json r = Some (PyDict kvs) \<and>
       map_of kvs ''success'' = None \<Longrightarrow>
       result \<noteq> Inl (WorldAnvilAPIError (status_code r))"
  proof -
    assume a: "status_code r < 400 \<and> json r = Some (PyDict kvs) \<and>
       map_of kvs ''success'' = None"
    let ?ttl = "case cache_ttl of Some t \<Rightarrow> t | None \<Rightarrow> default_cache_ttl ?cl1"
    have "fst (cache_set (cache ?cl1) (the cache_key) (PyDict kvs) (Some ?ttl) ?now) = Inr () \<or>
        fst (cache_set (cache ?cl1) (the cache_key) (PyDict kvs) (Some ?ttl) ?now) = Inl KeyError"
      by (rule cache_set_result)
    then show ?thesis
      unfolding res using a
      by (auto simp: handle_response_def below Let_def invalidate_pattern_def
          split: prod.splits sum.splits option.splits)
  qed
  from once auth nf rl0 rl api flag noflag show ?thesis by blast
qed

text \<open>
  One request per response of \<open>failing_responses\<close>, each on a fresh entered client:
  the typed failure comes back after one call and no sleep.
\<close>

theorem classification_short_circuit_witness:
  "request (answers failing_responses) (aenter (new_client 3 300)) ''GET'' ''/identity'' None None
     (start\<lparr>calls := 0\<rparr>) =
     (Inl WorldAnvilAuthError, aenter (new_client 3 300), \<lparr>calls = 1, slept = [], clock = 1\<rparr>) \<and>
   request (answers failing_responses) (aenter (new_client 3 300)) ''GET'' ''/identity'' None None
     (start\<lparr>calls := 1\<rparr>) =
     (Inl WorldAnvilAuthError, aenter (new_client 3 300), \<lparr>calls = 2, slept = [], clock = 1\<rparr>) \<and>
   request (answers failing_responses) (aenter (new_client 3 300)) ''GET'' ''/identity'' None None
     (start\<lparr>calls := 2\<rparr>) =
     (Inl WorldAnvilNotFoundError, aenter (new_client 3 300),
      \<lparr>calls = 3, slept = [], clock = 1\<rparr>) \<and>
   request (answers failing_responses) (aenter (new_client 3 300)) ''GET'' ''/identity'' None None
     (start\<lparr>calls := 3\<rparr>) =
     (Inl (WorldAnvilRateLimitError 60), aenter (new_client 3 300),
      \<lparr>calls = 4, slept = [], clock = 1\<rparr>) \<and>
   request (answers failing_responses) (aenter (new_client 3 300)) ''GET'' ''/identity'' None None
     (start\<lparr>calls := 4\<rparr>) =
     (Inl (WorldAnvilRateLimitError 30), aenter (new_client 3 300),
      \<lparr>calls = 5, slept = [], clock = 1\<rparr>) \<and>
   request (answers failing_responses) (aenter (new_client 3 300)) ''GET'' ''/identity'' None None
     (start\<lparr>calls := 5\<rparr>) =
     (Inl (WorldAnvilAPIError 500), aenter (new_client 3 300),
      \<lparr>calls = 6, slept = [], clock = 1\<rparr>) \<and>
   request (answers failing_responses) (aenter (new_client 3 300)) ''GET'' ''/identity'' None None
     (start\<lparr>calls := 6\<rparr>) =
     (Inl (WorldAnvilAPIError 418), aenter (new_client 3 300),
      \<lparr>calls = 7, slept = [], clock = 1\<rparr>) \<and>
   request (answers failing_responses) (aenter (new_client 3 300)) ''GET'' ''/identity'' None None
     (start\<lparr>calls := 7\<rparr>) =
     (Inl (WorldAnvilAPIError 200), aenter (new_client 3 300),
      \<lparr>calls = 8, slept = [], clock = 1\<rparr>)"
proof -
  let ?e = "answers failing_responses" and ?cl = "aenter (new_client 3 300)"
  have init: "initialized ?cl" and one: "1 \<le> max_retries ?cl"
    by (simp_all add: aenter_def new_client_def)
  have miss: "fst (consult ?cl ''GET'' None (clock w)) = None" for w
    by (simp add: consult_def caching_def)
  have resp: "transport ?e (calls w) ''GET'' ''/identity'' = Responded (failing_responses (calls w))"
    for w by (simp add: answers_def)
  have thirty: "py_int ?e ''30'' = Some 30"
    by (simp add: answers_def dec_int_def)
  note defs = request_def consult_def caching_def aenter_def new_client_def start_def
    answers_def failing_responses_def handle_response_def status_error_def Let_def upt_rec
  have r0: "request ?e ?cl ''GET'' ''/identity'' None None (start\<lparr>calls := 0\<rparr>) =
     (Inl WorldAnvilAuthError, ?cl, \<lparr>calls = 1, slept = [], clock = 1\<rparr>)"
    by (simp add: defs)
  have r1: "request ?e ?cl ''GET'' ''/identity'' None None (start\<lparr>calls := 1\<rparr>) =
     (Inl WorldAnvilAuthError, ?cl, \<lparr>calls = 2, slept = [], clock = 1\<rparr>)"
    by (simp add: defs)
  have r2: "request ?e ?cl ''GET'' ''/identity'' None None (start\<lparr>calls := 2\<rparr>) =
     (Inl WorldAnvilNotFoundError, ?cl, \<lparr>calls = 3, slept = [], clock = 1\<rparr>)"
    by (simp add: defs)
  have r3: "request ?e ?cl ''GET'' ''/identity'' None None (start\<lparr>calls := 3\<rparr>) =
     (Inl (WorldAnvilRateLimitError 60), ?cl, \<lparr>calls = 4, slept = [], clock = 1\<rparr>)"
    by (simp add: defs)
  have r4: "request ?e ?cl ''GET'' ''/identity'' None None (start\<lparr>calls := 4\<rparr>) =
     (Inl (WorldAnvilRateLimitError 30), ?cl, \<lparr>calls = 5, slept = [], clock = 1\<rparr>)"
    using thirty by (simp add: defs)
  have r5: "request ?e ?cl ''GET'' ''/identity'' None None (start\<lparr>calls := 5\<rparr>) =
     (Inl (WorldAnvilAPIError 500), ?cl, \<lparr>calls = 6, slept = [], clock = 1\<rparr>)"
    by (simp add: defs)
  have r6: "request ?e ?cl ''GET'' ''/identity'' None None (start\<lparr>calls := 6\<rparr>) =
     (Inl (WorldAnvilAPIError 418), ?cl, \<lparr>calls = 7, slept = [], clock = 1\<rparr>)"
    by (simp add: defs)
  have r7: "request ?e ?cl ''GET'' ''/identity'' None None (start\<lparr>calls := 7\<rparr>) =
     (Inl (WorldAnvilAPIError 200), ?cl, \<lparr>calls = 8, slept = [], clock = 1\<rparr>)"
    by (simp add: defs)
  note classification_short_circuit [OF init miss one resp r4, of "''30''" 30]
    classification_short_circuit [OF init miss one resp r7,
      of _ _ "[(''success'', PyBool False), (''error'', PyStr ''not allowed'')]"]
  with r0 r1 r2 r3 r4 r5 r6 r7 show ?thesis by simp
qed



section \<open>Cache consultation and the client check\<close>

text \<open>
  C9, as the code has it. A GET with a non-empty cache key whose entry is live and holds a
  value other than \<open>None\<close> returns that value, moves the entry to the most recent
  position and touches neither the network nor the client check: the result is the same
  whether the HTTP client is initialised or not. The "Client not initialized" error is
  raised exactly when nothing is served from the cache and the client is not initialised.
\<close>

theorem cache_before_client_check:
  "(method = ''GET'' \<and> cache_key = Some key \<and> key \<noteq> [] \<and>
      map_of (store (cache cl)) key = Some entry \<and> clock w < expires_at entry \<and>
      entry_value entry \<noteq> PyNone \<longrightarrow>
      request e cl method path cache_key cache_ttl w =
        (Inr (entry_value entry),
         cl\<lparr>cache := (cache cl)\<lparr>store := move_to_end key entry (store (cache cl))\<rparr>\<rparr>, w)) \<and>
   (fst (consult cl method cache_key (clock w)) = None \<and> \<not> initialized cl \<longrightarrow>
      request e cl method path cache_key cache_ttl w =
        (Inl RuntimeError_not_initialized, snd (consult cl method cache_key (clock w)), w))"
proof -
  have served: "request e cl method path cache_key cache_ttl w =
        (Inr (entry_value entry),
         cl\<lparr>cache := (cache cl)\<lparr>store := move_to_end key entry (store (cache cl))\<rparr>\<rparr>, w)"
    if "method = ''GET''" and "cache_key = Some key" and "key \<noteq> []"
      and "map_of (store (cache cl)) key = Some entry" and "clock w < expires_at entry"
      and "entry_value entry \<noteq> PyNone"
    using that by (simp add: request_def consult_def caching_def cache_get_def)
  have refused: "request e cl method path cache_key cache_ttl w =
        (Inl RuntimeError_not_initialized, snd (consult cl method cache_key (clock w)), w)"
    if miss: "fst (consult cl method cache_key (clock w)) = None" and "\<not> initialized cl"
  proof -
    obtain hit cl1 where c: "consult cl method cache_key (clock w) = (hit, cl1)"
      by (cases "consult cl method cache_key (clock w)") auto
    have "\<not> initialized cl1"
      using that(2) consult_config [of cl "method" "cache_key" "clock w"] c by simp
    then show ?thesis
      using miss c by (simp add: request_def)
  qed
  from served refused show ?thesis by blast
qed

text \<open>
  The cache holds \<open>identity\<close> with the value \<open>{"id": "user-1"}\<close> until time 3600; the
  client was never entered. At time 10 the request returns the value and makes no call.
  With an empty cache the same request raises "Client not initialized".
\<close>

theorem cache_before_client_check_witness:
  "request timeout_env
      ((new_client 3 300)\<lparr>cache := \<lparr>default_ttl = 300, max_entries = 1000,
          store = [(''identity'',
            \<lparr>entry_value = PyDict [(''id'', PyStr ''user-1'')], expires_at = 3600\<rparr>)]\<rparr>\<rparr>)
      ''GET'' ''/identity'' (Some ''identity'') (Some 3600) (start\<lparr>clock := 10\<rparr>) =
     (Inr (PyDict [(''id'', PyStr ''user-1'')]),
      (new_client 3 300)\<lparr>cache := \<lparr>default_ttl = 300, max_entries = 1000,
          store = [(''identity'',
            \<lparr>entry_value = PyDict [(''id'', PyStr ''user-1'')], expires_at = 3600\<rparr>)]\<rparr>\<rparr>,
      start\<lparr>clock := 10\<rparr>) \<and>
   \<not> initialized (new_client 3 300) \<and>
   request timeout_env (new_client 3 300) ''GET'' ''/identity'' (Some ''identity'') (Some 3600)
      (start\<lparr>clock := 10\<rparr>) =
     (Inl RuntimeError_not_initialized, new_client 3 300, start\<lparr>clock := 10\<rparr>)"
proof -
  let ?entry = "\<lparr>entry_value = PyDict [(''id'', PyStr ''user-1'')], expires_at = 3600\<rparr>"
  let ?cl = "(new_client 3 300)\<lparr>cache := \<lparr>default_ttl = 300, max_entries = 1000,
          store = [(''identity'', ?entry)]\<rparr>\<rparr>"
  let ?w = "start\<lparr>clock := 10\<rparr>"
  have hit: "''GET'' = ''GET'' \<and> Some ''identity'' = Some ''identity'' \<and> ''identity'' \<noteq> [] \<and>
      map_of (store (cache ?cl)) ''identity'' = Some ?entry \<and> clock ?w < expires_at ?entry \<and>
      entry_value ?entry \<noteq> PyNone"
    by (simp add: start_def)
  have miss: "fst (consult (new_client 3 300) ''GET'' (Some ''identity'') (clock ?w)) = None \<and>
      \<not> initialized (new_client 3 300)"
    by (simp add: consult_def caching_def cache_get_def new_client_def new_cache_def)
  have same: "snd (consult (new_client 3 300) ''GET'' (Some ''identity'') (clock ?w)) =
      new_client 3 300"
    by (simp add: consult_def caching_def cache_get_def new_client_def new_cache_def)
  from hit miss same
    cache_before_client_check [of "''GET''" "Some ''identity''" "''identity''" ?cl ?entry ?w
      timeout_env "''/identity''" "Some 3600"]
    cache_before_client_check [of "''GET''" "Some ''identity''" "''identity''"
      "new_client 3 300" ?entry ?w timeout_env "''/identity''" "Some 3600"]
  show ?thesis by (simp add: move_to_end_def)
qed

text \<open>
  After \<open>null_read\<close> the client is left. The entry \<open>identity\<close> is live and holds
  \<open>None\<close>. The same GET is not served from the cache: it raises "Client not
  initialized".
\<close>

theorem cache_before_client_check_counterexample:
  "fst null_read = Inr PyNone \<and>
   live (cache (aexit (fst (snd null_read)))) ''identity'' (clock (snd (snd null_read))) \<and>
   map_of (store (cache (aexit (fst (snd null_read))))) ''identity'' =
     Some \<lparr>entry_value = PyNone, expires_at = 3601\<rparr> \<and>
   \<not> initialized (aexit (fst (snd null_read))) \<and>
   fst (request (answers null_response) (aexit (fst (snd null_read))) ''GET'' ''/identity''
          (Some ''identity'') (Some 3600) (snd (snd null_read))) =
     Inl RuntimeError_not_initialized"
  by (simp add: null_read_def request_def consult_def caching_def cache_get_def
      cache_set_def aenter_def aexit_def new_client_def new_cache_def start_def answers_def
      null_response_def handle_response_def status_error_def mutating_def live_def
      move_to_end_def Let_def upt_rec)



section \<open>Invalidation after writes\<close>

subsection \<open>The pattern \<open>.*token.*\<close> in the fragment\<close>









subsection \<open>The token of a path\<close>




lemma resource_type_no_separator:
  "CHR ''/'' \<notin> set path \<Longrightarrow> resource_type path = []"
  by (simp add: resource_type_def)

subsection \<open>One successful request\<close>













end
